theory Spec2Isabelle
  imports Main "HOL-Library.Sublist" "HOL-Library.Multiset"
begin

section \<open>The HTTP pipeline shared by both middlewares\<close>

text \<open>
  Both packages decorate a \<^verbatim>\<open>http.Handler\<close>. What they observe of a request is its
  \<^verbatim>\<open>Host\<close> and its header map; what they do to a response goes through the three
  methods of \<^verbatim>\<open>http.ResponseWriter\<close>: \<^verbatim>\<open>Header()\<close>, \<^verbatim>\<open>WriteHeader\<close> and \<^verbatim>\<open>Write\<close>.

  \<^verbatim>\<open>http.Header\<close> is \<^verbatim>\<open>map[string][]string\<close>. Every key the two packages use is
  already in canonical MIME form, so the canonicalisation done by \<^verbatim>\<open>Get\<close>, \<^verbatim>\<open>Set\<close>
  and \<^verbatim>\<open>Add\<close> is the identity on them and is left out.
\<close>

type_synonym header = "string \<rightharpoonup> string list"

definition Header_Get :: "header \<Rightarrow> string \<Rightarrow> string" where
  "Header_Get h k = (case h k of None \<Rightarrow> [] | Some [] \<Rightarrow> [] | Some (v # _) \<Rightarrow> v)"

definition Header_Set :: "string \<Rightarrow> string \<Rightarrow> header \<Rightarrow> header" where
  "Header_Set k v h = h(k \<mapsto> [v])"

definition Header_Add :: "string \<Rightarrow> string \<Rightarrow> header \<Rightarrow> header" where
  "Header_Add k v h = h(k \<mapsto> (case h k of None \<Rightarrow> [] | Some vs \<Rightarrow> vs) @ [v])"

record request =
  Host :: string
  Header :: header

text \<open>
  \<^verbatim>\<open>http.ResponseWriter\<close> is an interface, so the response is modelled by what reaches
  it: the header map handed out by \<^verbatim>\<open>Header()\<close>, and the calls of \<^verbatim>\<open>WriteHeader\<close> and
  \<^verbatim>\<open>Write\<close> in the order they were made. The logging sink of package
  \<^verbatim>\<open>teamwork/log\<close> is modelled the same way, by the calls of \<^verbatim>\<open>Err\<close> it receives.
\<close>

datatype wcall = WriteHeader nat | Write string

datatype goerror = GoError string

fun Error :: "goerror \<Rightarrow> string" where
  "Error (GoError msg) = msg"

record entry =
  entry_module :: string
  entry_fields :: "(string \<times> string) list"

record world =
  wheader :: header
  wcalls :: "wcall list"
  sink :: "(entry \<times> goerror option) list"

text \<open>
  A value passed to \<^verbatim>\<open>panic\<close> and handed back by \<^verbatim>\<open>recover\<close>, by the three shapes the
  type switch of \<^verbatim>\<open>Rescue\<close> tells apart. An entry of a \<^verbatim>\<open>map[string]interface{}\<close> is
  \<^verbatim>\<open>nil\<close>, an error, or something else. Any other value carries the text that
  \<^verbatim>\<open>fmt\<close> prints for it under \<^verbatim>\<open>%v\<close>, which is all the code reads of it.
  \<^verbatim>\<open>panic(nil)\<close> is not covered: what \<^verbatim>\<open>recover\<close> returns for it depends on the Go
  release.
\<close>

datatype iface = INil | IError goerror | IOther string

datatype fault = FError goerror | FMap "string \<rightharpoonup> iface" | FOther string

datatype outcome = Returned | Panicked fault

type_synonym handler = "request \<Rightarrow> world \<Rightarrow> outcome \<times> world"

section \<open>Package securityMiddleware\<close>

record Config =
  XFrameOptions :: string
  ContentSecurityPolicy :: "string \<rightharpoonup> string list"
  ContentSecurityPolicyReportOnly :: "string \<rightharpoonup> string list"
  StrictTransportSecurity :: string
  XContentTypeOptions :: string

definition DefaultConfig :: Config where
  "DefaultConfig = \<lparr> XFrameOptions = ''SAMEORIGIN'',
     ContentSecurityPolicy = Map.empty,
     ContentSecurityPolicyReportOnly = Map.empty,
     StrictTransportSecurity = ''max-age=2592000'',
     XContentTypeOptions = ''nosniff'' \<rparr>"

text \<open>\<^verbatim>\<open>strings.Join\<close> and \<^verbatim>\<open>strings.HasSuffix\<close> of the Go library.\<close>

fun Join :: "string list \<Rightarrow> string \<Rightarrow> string" where
  "Join [] sep = []"
| "Join [x] sep = x"
| "Join (x # y # ys) sep = x @ sep @ Join (y # ys) sep"

definition HasSuffix :: "string \<Rightarrow> string \<Rightarrow> bool" where
  "HasSuffix s sfx = (length s \<ge> length sfx \<and> drop (length s - length sfx) s = sfx)"

text \<open>\<^verbatim>\<open>fmt.Sprintf("%v %v;", k, strings.Join(v, " "))\<close>, one directive group.\<close>

definition directive :: "string \<Rightarrow> string list \<Rightarrow> string" where
  "directive k v = k @ '' '' @ Join v '' '' @ '';''"

text \<open>
  A \<^verbatim>\<open>range\<close> over a Go map visits every key once, in an order the runtime picks anew
  for each loop. The order is therefore an argument of the model: \<open>range_order m ks\<close>
  says that \<open>ks\<close> is one of the orders the runtime may pick for \<open>m\<close>.
\<close>

definition range_order :: "('k \<rightharpoonup> 'v) \<Rightarrow> 'k list \<Rightarrow> bool" where
  "range_order m ks = (distinct ks \<and> set ks = dom m)"

text \<open>
  The loop \<^verbatim>\<open>for k, v := range m { csp += fmt.Sprintf(...) }\<close>, with the string built
  so far as accumulator. Both loops of \<^verbatim>\<open>WithConfig\<close> have this body.
\<close>

fun policy_loop :: "(string \<rightharpoonup> string list) \<Rightarrow> string list \<Rightarrow> string \<Rightarrow> string" where
  "policy_loop m [] csp = csp"
| "policy_loop m (k # ks) csp =
     (case m k of
        None \<Rightarrow> policy_loop m ks csp
      | Some v \<Rightarrow> policy_loop m ks (csp @ directive k v))"

text \<open>
  The header writes of \<^verbatim>\<open>WithConfig\<close>, in the order of the source. \<open>ks\<close> and \<open>ks'\<close> are
  the orders in which the two \<^verbatim>\<open>range\<close> loops visit their maps.
\<close>

definition set_headers ::
  "Config \<Rightarrow> string \<Rightarrow> string list \<Rightarrow> string list \<Rightarrow> request \<Rightarrow> header \<Rightarrow> header" where
  "set_headers config rootDomain ks ks' r h0 =
     (let csp = policy_loop (ContentSecurityPolicy config) ks [];
          cspReport = policy_loop (ContentSecurityPolicyReportOnly config) ks' [];
          h1 = (if XFrameOptions config \<noteq> [] then
                  Header_Set ''X-Frame-Options'' (XFrameOptions config) h0 else h0);
          h2 = (if csp \<noteq> [] then Header_Set ''Content-Security-Policy'' csp h1 else h1);
          h3 = (if cspReport \<noteq> [] then
                  Header_Set ''Content-Security-Policy-Report-Only'' cspReport h2 else h2);
          h4 = (if StrictTransportSecurity config \<noteq> [] \<and> HasSuffix (Host r) rootDomain then
                  Header_Set ''Strict-Transport-Security'' (StrictTransportSecurity config) h3
                else h3);
          h5 = (if XContentTypeOptions config \<noteq> [] then
                  Header_Set ''X-Content-Type-Options'' (XContentTypeOptions config) h4 else h4)
      in h5)"

definition WithConfig ::
  "Config \<Rightarrow> string \<Rightarrow> string list \<Rightarrow> string list \<Rightarrow> handler \<Rightarrow> handler" where
  "WithConfig config rootDomain ks ks' next r w =
     next r (w\<lparr>wheader := set_headers config rootDomain ks ks' r (wheader w)\<rparr>)"

definition Add :: "string \<Rightarrow> string list \<Rightarrow> string list \<Rightarrow> handler \<Rightarrow> handler" where
  "Add rootDomain = WithConfig DefaultConfig rootDomain"

text \<open>
  The directive groups the loop appends, in loop order; \<open>policy_loop\<close> is shown below to
  return their concatenation.
\<close>

fun policy_groups :: "(string \<rightharpoonup> string list) \<Rightarrow> string list \<Rightarrow> string list" where
  "policy_groups m [] = []"
| "policy_groups m (k # ks) =
     (case m k of
        None \<Rightarrow> policy_groups m ks
      | Some v \<Rightarrow> directive k v # policy_groups m ks)"

section \<open>Package rescueMiddleware\<close>

text \<open>\<^verbatim>\<open>log.Module\<close>, \<^verbatim>\<open>(*log.Entry).Err\<close>, \<^verbatim>\<open>w.WriteHeader\<close> and \<^verbatim>\<open>w.Write\<close>.\<close>

definition log_Module :: "string \<Rightarrow> entry" where
  "log_Module name = \<lparr> entry_module = name, entry_fields = [] \<rparr>"

definition log_Err :: "entry \<Rightarrow> goerror option \<Rightarrow> world \<Rightarrow> world" where
  "log_Err l err w = w\<lparr>sink := sink w @ [(l, err)]\<rparr>"

definition w_WriteHeader :: "nat \<Rightarrow> world \<Rightarrow> world" where
  "w_WriteHeader code w = w\<lparr>wcalls := wcalls w @ [WriteHeader code]\<rparr>"

definition w_Write :: "string \<Rightarrow> world \<Rightarrow> world" where
  "w_Write b w = w\<lparr>wcalls := wcalls w @ [Write b]\<rparr>"

definition w_Header_Add :: "string \<Rightarrow> string \<Rightarrow> world \<Rightarrow> world" where
  "w_Header_Add k v w = w\<lparr>wheader := Header_Add k v (wheader w)\<rparr>"

definition StatusInternalServerError :: nat where
  "StatusInternalServerError = 500"

text \<open>
  The type switch on the recovered value. \<open>None\<close> is the \<^verbatim>\<open>nil\<close> error: in the map case
  the assertion \<^verbatim>\<open>rec["error"].(error)\<close> is of the comma-ok form, which yields \<^verbatim>\<open>nil\<close>
  when the key is absent or its value is not an error. \<^verbatim>\<open>pretty.Errorf("%v", rec)\<close>
  makes an error of the text \<^verbatim>\<open>fmt\<close> prints for \<^verbatim>\<open>rec\<close>.
\<close>

fun recovered_err :: "fault \<Rightarrow> goerror option" where
  "recovered_err (FError e) = Some e"
| "recovered_err (FMap m) =
     (case m ''error'' of Some (IError e) \<Rightarrow> Some e | _ \<Rightarrow> None)"
| "recovered_err (FOther v) = Some (GoError v)"

text \<open>\<^verbatim>\<open>%v\<close> of an \<^verbatim>\<open>error\<close>: its message, or \<^verbatim>\<open><nil>\<close> for the \<^verbatim>\<open>nil\<close> error.\<close>

fun fmt_v :: "goerror option \<Rightarrow> string" where
  "fmt_v None = ''<nil>''"
| "fmt_v (Some e) = Error e"

text \<open>
  Calling \<^verbatim>\<open>err.Error()\<close> on the \<^verbatim>\<open>nil\<close> error panics with this runtime error.
\<close>

definition nil_dereference :: fault where
  "nil_dereference =
     FError (GoError ''runtime error: invalid memory address or nil pointer dereference'')"

definition apology :: string where
  "apology = ''Sorry, the server ran into a problem processing this request.''"

text \<open>\<^verbatim>\<open>json.Marshal(map[string]interface{}{"message": ...})\<close> at that message.\<close>

definition apology_json :: string where
  \<open>apology_json = ''{"message":"'' @ apology @ ''"}''\<close>

definition isXHR :: "request \<Rightarrow> bool" where
  "isXHR r = (Header_Get (Header r) ''X-Requested-With'' = ''XMLHttpRequest'')"

text \<open>
  The deferred function of \<^verbatim>\<open>Rescue\<close> once \<^verbatim>\<open>recover()\<close> has returned the non-nil
  \<open>rec\<close>. \<open>stack\<close> is what \<^verbatim>\<open>debug.Stack()\<close> returns there. The result says whether
  the deferred function returns or panics itself. The callback, the sink and the writer
  are taken to return. As in the source, \<^verbatim>\<open>Content-Type\<close> is added to the header map
  after \<^verbatim>\<open>WriteHeader\<close> has been called; the model keeps the map and the calls, and does
  not say which entries of the map a server sends.
\<close>

definition rescue_deferred ::
  "(request \<Rightarrow> entry \<Rightarrow> entry) option \<Rightarrow> bool \<Rightarrow> string \<Rightarrow> entry \<Rightarrow> request \<Rightarrow> fault \<Rightarrow>
     world \<Rightarrow> outcome \<times> world" where
  "rescue_deferred extraFields dev stack l0 r rec w0 =
     (let err = recovered_err rec;
          l = (case extraFields of None \<Rightarrow> l0 | Some f \<Rightarrow> f r l0);
          w1 = log_Err l err w0;
          w2 = w_WriteHeader StatusInternalServerError w1
      in if dev then
           (if isXHR r then
              (case err of
                 None \<Rightarrow> (Panicked nil_dereference, w2)
               | Some e \<Rightarrow> (Returned, w_Write (Error e) w2))
            else
              (Returned, w_Write (''<h2>'' @ fmt_v err @ ''</h2><pre>'' @ stack @ ''</pre>'') w2))
         else if isXHR r then
           (Returned, w_Write apology_json (w_Header_Add ''Content-Type'' ''application/json'' w2))
         else
           (Returned, w_Write apology w2))"

text \<open>
  \<^verbatim>\<open>Rescue\<close>: run the next handler; if it panicked, the deferred function takes over
  with the recovered value.
\<close>

definition Rescue ::
  "(request \<Rightarrow> entry \<Rightarrow> entry) option \<Rightarrow> bool \<Rightarrow> string \<Rightarrow> handler \<Rightarrow> handler" where
  "Rescue extraFields dev stack next r w =
     (let l = log_Module ''panic handler''
      in case next r w of
           (Returned, w') \<Rightarrow> (Returned, w')
         | (Panicked rec, w') \<Rightarrow> rescue_deferred extraFields dev stack l r rec w')"

section \<open>Inputs used in the examples\<close>

text \<open>
  The source token \<^verbatim>\<open>'self'\<close>, and the mapping
  \<^verbatim>\<open>{"default-src": ["'self'"], "img-src": ["*", "data:"]}\<close>.
\<close>

definition quoted_self :: string where
  "quoted_self = CHR 0x27 # ''self'' @ [CHR 0x27]"

definition csp_example :: "string \<rightharpoonup> string list" where
  "csp_example = [''default-src'' \<mapsto> [quoted_self], ''img-src'' \<mapsto> [''*'', ''data:'']]"

definition csp_example_config :: Config where
  "csp_example_config = DefaultConfig\<lparr>ContentSecurityPolicy := csp_example\<rparr>"

definition empty_config :: Config where
  "empty_config = \<lparr> XFrameOptions = [], ContentSecurityPolicy = Map.empty,
     ContentSecurityPolicyReportOnly = Map.empty, StrictTransportSecurity = [],
     XContentTypeOptions = [] \<rparr>"

definition world0 :: world where
  "world0 = \<lparr> wheader = Map.empty, wcalls = [], sink = [] \<rparr>"

definition plain_request :: request where
  "plain_request = \<lparr> Host = ''app.example.com'', Header = Map.empty \<rparr>"

definition xhr_request :: request where
  "xhr_request = \<lparr> Host = ''app.example.com'',
     Header = [''X-Requested-With'' \<mapsto> [''XMLHttpRequest'']] \<rparr>"

text \<open>
  Three handlers: one that answers 200, one that does \<^verbatim>\<open>panic("boom")\<close>, and one that
  does \<^verbatim>\<open>panic(map[string]interface{}{"code": 42})\<close>.
\<close>

definition ok_handler :: handler where
  "ok_handler r w = (Returned, w\<lparr>wcalls := wcalls w @ [WriteHeader 200, Write ''ok'']\<rparr>)"

definition boom_handler :: handler where
  "boom_handler r w = (Panicked (FOther ''boom''), w)"

definition map_panic_handler :: handler where
  "map_panic_handler r w = (Panicked (FMap [''code'' \<mapsto> IOther ''42'']), w)"

definition stack0 :: string where
  "stack0 = ''goroutine 1 [running]:''"

section \<open>Properties of securityMiddleware\<close>

subsection \<open>The library functions and the loop\<close>

text \<open>
  \<open>HasSuffix\<close> is the suffix relation of lists: a host has \<open>rootDomain\<close> as a suffix
  when it is some string followed by \<open>rootDomain\<close>, compared character by character.
\<close>

lemma HasSuffix_iff_suffix: "HasSuffix s sfx \<longleftrightarrow> suffix sfx s"
proof
  assume "HasSuffix s sfx"
  then have "drop (length s - length sfx) s = sfx" by (simp add: HasSuffix_def)
  then have "s = take (length s - length sfx) s @ sfx"
    by (metis append_take_drop_id)
  then show "suffix sfx s" by (metis suffixI)
next
  assume "suffix sfx s"
  then obtain zs where "s = zs @ sfx" by (auto simp: suffix_def)
  then show "HasSuffix s sfx" by (simp add: HasSuffix_def)
qed

text \<open>The loop returns what it was given followed by the groups it emitted.\<close>

lemma policy_loop_groups: "policy_loop m ks acc = acc @ concat (policy_groups m ks)"
  by (induction ks arbitrary: acc) (auto split: option.splits)

lemma policy_loop_empty_map [simp]: "policy_loop Map.empty ks acc = acc"
  by (induction ks) auto

lemma directive_nonempty: "directive k v \<noteq> []"
  by (simp add: directive_def)

lemma policy_groups_map:
  "set ks \<subseteq> dom m \<Longrightarrow> policy_groups m ks = map (\<lambda>k. directive k (the (m k))) ks"
  by (induction ks) auto

lemma policy_groups_all2:
  "set ks \<subseteq> dom m \<Longrightarrow>
   list_all2 (\<lambda>k g. \<exists>v. m k = Some v \<and> g = k @ '' '' @ Join v '' '' @ '';'') ks (policy_groups m ks)"
  by (induction ks) (auto simp: directive_def)

lemma policy_groups_mem:
  "m k = Some v \<Longrightarrow> k \<in> set ks \<Longrightarrow> directive k v \<in> set (policy_groups m ks)"
  by (induction ks) (auto split: option.splits)

lemma sublist_concat_mem: "g \<in> set gs \<Longrightarrow> sublist g (concat gs)"
proof -
  assume "g \<in> set gs"
  then obtain xs ys where "gs = xs @ g # ys" by (meson split_list)
  then have "concat gs = concat xs @ g @ concat ys" by simp
  then show ?thesis unfolding sublist_def by blast
qed

lemma policy_loop_contains:
  assumes "range_order m ks" "m k = Some v"
  shows "sublist (directive k v) (policy_loop m ks [])"
proof -
  have "k \<in> set ks" using assms by (auto simp: range_order_def)
  then have "directive k v \<in> set (policy_groups m ks)" using assms(2) by (simp add: policy_groups_mem)
  then show ?thesis by (simp add: policy_loop_groups sublist_concat_mem)
qed

lemma policy_loop_nonempty:
  assumes "range_order m ks" "m \<noteq> Map.empty"
  shows "policy_loop m ks [] \<noteq> []"
proof -
  obtain k v where kv: "m k = Some v" using assms(2) by fastforce
  then have "sublist (directive k v) (policy_loop m ks [])" using assms(1) by (simp add: policy_loop_contains)
  then show ?thesis using directive_nonempty by auto
qed

text \<open>
  Two orders of the same map hold the same keys, so the loop emits the same groups for
  both, possibly in another order; a map with at most one key has one order only.
\<close>

lemma range_order_mset:
  "range_order m ks1 \<Longrightarrow> range_order m ks2 \<Longrightarrow> mset ks1 = mset ks2"
  by (metis range_order_def set_eq_iff_mset_eq_distinct)

lemma policy_groups_mset:
  assumes "range_order m ks1" "range_order m ks2"
  shows "mset (policy_groups m ks1) = mset (policy_groups m ks2)"
proof -
  have "set ks1 \<subseteq> dom m" "set ks2 \<subseteq> dom m" using assms by (simp_all add: range_order_def)
  then have "policy_groups m ks1 = map (\<lambda>k. directive k (the (m k))) ks1"
    "policy_groups m ks2 = map (\<lambda>k. directive k (the (m k))) ks2"
    by (simp_all add: policy_groups_map)
  moreover have "mset ks1 = mset ks2" using assms by (rule range_order_mset)
  ultimately show ?thesis by (metis mset_map)
qed

lemma range_order_single:
  assumes "range_order m ks1" "range_order m ks2" "card (dom m) \<le> 1"
  shows "ks1 = ks2"
proof -
  have d: "distinct ks1" "distinct ks2" "set ks1 = dom m" "set ks2 = dom m"
    using assms by (simp_all add: range_order_def)
  then have "length ks1 \<le> 1" "length ks2 \<le> 1"
    using assms(3) by (metis distinct_card)+
  then show ?thesis using d
    by (cases ks1; cases ks2) auto
qed

subsection \<open>What \<open>set_headers\<close> leaves under each header name\<close>

lemma set_headers_other:
  "n \<notin> {''X-Frame-Options'', ''Content-Security-Policy'', ''Content-Security-Policy-Report-Only'',
      ''Strict-Transport-Security'', ''X-Content-Type-Options''} \<Longrightarrow>
   set_headers config rd ks ks' r h n = h n"
  by (simp add: set_headers_def Let_def Header_Set_def)

lemma set_headers_xfo:
  "set_headers config rd ks ks' r h ''X-Frame-Options'' =
     (if XFrameOptions config \<noteq> [] then Some [XFrameOptions config] else h ''X-Frame-Options'')"
  by (simp add: set_headers_def Let_def Header_Set_def)

lemma set_headers_csp:
  "set_headers config rd ks ks' r h ''Content-Security-Policy'' =
     (if policy_loop (ContentSecurityPolicy config) ks [] \<noteq> []
      then Some [policy_loop (ContentSecurityPolicy config) ks []]
      else h ''Content-Security-Policy'')"
  by (simp add: set_headers_def Let_def Header_Set_def)

lemma set_headers_cspro:
  "set_headers config rd ks ks' r h ''Content-Security-Policy-Report-Only'' =
     (if policy_loop (ContentSecurityPolicyReportOnly config) ks' [] \<noteq> []
      then Some [policy_loop (ContentSecurityPolicyReportOnly config) ks' []]
      else h ''Content-Security-Policy-Report-Only'')"
  by (simp add: set_headers_def Let_def Header_Set_def)

lemma set_headers_sts:
  "set_headers config rd ks ks' r h ''Strict-Transport-Security'' =
     (if StrictTransportSecurity config \<noteq> [] \<and> HasSuffix (Host r) rd
      then Some [StrictTransportSecurity config]
      else h ''Strict-Transport-Security'')"
  by (simp add: set_headers_def Let_def Header_Set_def)

lemma set_headers_xcto:
  "set_headers config rd ks ks' r h ''X-Content-Type-Options'' =
     (if XContentTypeOptions config \<noteq> [] then Some [XContentTypeOptions config]
      else h ''X-Content-Type-Options'')"
  by (simp add: set_headers_def Let_def Header_Set_def)

lemma set_headers_csp_groups:
  assumes "range_order (ContentSecurityPolicy config) ks"
  shows "set_headers config rd ks ks' r h ''Content-Security-Policy'' =
     (if ContentSecurityPolicy config = Map.empty then h ''Content-Security-Policy''
      else Some [concat (policy_groups (ContentSecurityPolicy config) ks)])"
proof (cases "ContentSecurityPolicy config = Map.empty")
  case True
  then show ?thesis by (simp add: set_headers_csp)
next
  case False
  then have "policy_loop (ContentSecurityPolicy config) ks [] \<noteq> []"
    using assms by (simp add: policy_loop_nonempty)
  then show ?thesis using False
    by (simp add: set_headers_csp policy_loop_groups)
qed

lemma set_headers_cspro_groups:
  assumes "range_order (ContentSecurityPolicyReportOnly config) ks'"
  shows "set_headers config rd ks ks' r h ''Content-Security-Policy-Report-Only'' =
     (if ContentSecurityPolicyReportOnly config = Map.empty
      then h ''Content-Security-Policy-Report-Only''
      else Some [concat (policy_groups (ContentSecurityPolicyReportOnly config) ks')])"
proof (cases "ContentSecurityPolicyReportOnly config = Map.empty")
  case True
  then show ?thesis by (simp add: set_headers_cspro)
next
  case False
  then have "policy_loop (ContentSecurityPolicyReportOnly config) ks' [] \<noteq> []"
    using assms by (simp add: policy_loop_nonempty)
  then show ?thesis using False
    by (simp add: set_headers_cspro policy_loop_groups)
qed

lemma set_headers_host:
  "Host r1 = Host r2 \<Longrightarrow>
   set_headers config rd ks ks' r1 h = set_headers config rd ks ks' r2 h"
  unfolding set_headers_def by (erule subst) (rule refl)

lemma set_headers_fixed:
  assumes "Host r1 = Host r2" "n \<noteq> ''Content-Security-Policy''"
    "n \<noteq> ''Content-Security-Policy-Report-Only''"
  shows "set_headers config rd ks1 ks1' r1 h n = set_headers config rd ks2 ks2' r2 h n"
  using assms by (simp add: set_headers_def Let_def Header_Set_def)

lemma csp_example_orders:
  "range_order csp_example [''default-src'', ''img-src'']"
  "range_order csp_example [''img-src'', ''default-src'']"
  by (auto simp: range_order_def csp_example_def)

lemma csp_example_header:
  assumes "range_order csp_example ks"
  shows "\<exists>v. set_headers csp_example_config rd ks ks' r h ''Content-Security-Policy'' = Some [v] \<and>
     sublist ''default-src 'self';'' v \<and> sublist ''img-src * data:;'' v"
proof -
  let ?v = "policy_loop csp_example ks []"
  have m: "ContentSecurityPolicy csp_example_config = csp_example"
    by (simp add: csp_example_config_def)
  have a: "csp_example ''default-src'' = Some [quoted_self]"
    and b: "csp_example ''img-src'' = Some [''*'', ''data:'']"
    by (simp_all add: csp_example_def)
  have "sublist (directive ''default-src'' [quoted_self]) ?v"
    using assms a by (rule policy_loop_contains)
  then have 1: "sublist ''default-src 'self';'' ?v"
    by (simp add: directive_def quoted_self_def)
  have "sublist (directive ''img-src'' [''*'', ''data:'']) ?v"
    using assms b by (rule policy_loop_contains)
  then have 2: "sublist ''img-src * data:;'' ?v"
    by (simp add: directive_def)
  have "?v \<noteq> []" using 1 by auto
  then have "set_headers csp_example_config rd ks ks' r h ''Content-Security-Policy'' = Some [?v]"
    by (simp add: set_headers_csp m)
  then show ?thesis using 1 2 by blast
qed

subsection \<open>Strict-Transport-Security\<close>

text \<open>
  Claim C3. For every configuration and every request, \<^verbatim>\<open>WithConfig\<close> sets the
  \<^verbatim>\<open>Strict-Transport-Security\<close> response header if and only if the configured
  \<^verbatim>\<open>StrictTransportSecurity\<close> is non-empty and the request's host ends with
  \<open>rootDomain\<close> (an exact, case-sensitive suffix). When it sets the header, the value is
  the configured one; when it does not, the entry of the header map is left as it was.
\<close>

theorem sts_header_iff_suffix:
  "set_headers config rootDomain ks ks' r h ''Strict-Transport-Security'' =
     (if StrictTransportSecurity config \<noteq> [] \<and> suffix rootDomain (Host r)
      then Some [StrictTransportSecurity config]
      else h ''Strict-Transport-Security'')"
  by (simp add: set_headers_sts HasSuffix_iff_suffix)

text \<open>
  The hosts \<^verbatim>\<open>app.example.com\<close>, \<^verbatim>\<open>example.org\<close> and \<^verbatim>\<open>app.EXAMPLE.com\<close> under the default
  configuration and the root domain \<^verbatim>\<open>example.com\<close>.
\<close>

theorem sts_header_iff_suffix_witness:
  "set_headers DefaultConfig ''example.com'' [] [] \<lparr>Host = ''app.example.com'', Header = Map.empty\<rparr>
       Map.empty ''Strict-Transport-Security'' = Some [''max-age=2592000''] \<and>
   set_headers DefaultConfig ''example.com'' [] [] \<lparr>Host = ''example.org'', Header = Map.empty\<rparr>
       Map.empty ''Strict-Transport-Security'' = None \<and>
   set_headers DefaultConfig ''example.com'' [] [] \<lparr>Host = ''app.EXAMPLE.com'', Header = Map.empty\<rparr>
       Map.empty ''Strict-Transport-Security'' = None"
proof -
  have a: "suffix ''example.com'' ''app.example.com''"
    by (rule suffixI [of _ "''app.''"]) simp
  have b: "\<not> suffix ''example.com'' ''example.org''"
    by (simp add: suffix_def)
  have c: "\<not> suffix ''example.com'' ''app.EXAMPLE.com''"
    by (simp add: suffix_def append_eq_Cons_conv)
  show ?thesis
    using a b c
      sts_header_iff_suffix [of DefaultConfig "''example.com''" "[]" "[]"
        "\<lparr>Host = ''app.example.com'', Header = Map.empty\<rparr>" Map.empty]
      sts_header_iff_suffix [of DefaultConfig "''example.com''" "[]" "[]"
        "\<lparr>Host = ''example.org'', Header = Map.empty\<rparr>" Map.empty]
      sts_header_iff_suffix [of DefaultConfig "''example.com''" "[]" "[]"
        "\<lparr>Host = ''app.EXAMPLE.com'', Header = Map.empty\<rparr>" Map.empty]
    by (simp add: DefaultConfig_def)
qed

text \<open>
  Claim C10. When \<open>rootDomain\<close> is the empty string and the configured
  \<^verbatim>\<open>StrictTransportSecurity\<close> is non-empty, the header is set on every request, whatever
  its host: every string has the empty string as a suffix.
\<close>

theorem sts_header_empty_rootDomain:
  "StrictTransportSecurity config \<noteq> [] \<Longrightarrow>
   set_headers config [] ks ks' r h ''Strict-Transport-Security'' =
     Some [StrictTransportSecurity config]"
  by (simp add: set_headers_sts HasSuffix_def)

theorem sts_header_empty_rootDomain_witness:
  "StrictTransportSecurity DefaultConfig \<noteq> [] \<and>
   set_headers DefaultConfig [] [] [] \<lparr>Host = ''other.example.org'', Header = Map.empty\<rparr>
       Map.empty ''Strict-Transport-Security'' = Some [''max-age=2592000'']"
proof -
  have ne: "StrictTransportSecurity DefaultConfig \<noteq> []" by (simp add: DefaultConfig_def)
  show ?thesis
    using ne sts_header_empty_rootDomain [OF ne, of "[]" "[]"
        "\<lparr>Host = ''other.example.org'', Header = Map.empty\<rparr>" Map.empty]
    by (simp add: DefaultConfig_def)
qed

subsection \<open>Empty directives\<close>

text \<open>
  Claim C9. If every directive of the configuration is empty (the three strings empty,
  the two mappings without keys), \<^verbatim>\<open>WithConfig\<close> writes no response header, for every
  request, and the next handler runs on the untouched response: the wrapped handler is
  the next handler.
\<close>

theorem empty_config_no_headers:
  assumes "XFrameOptions config = []"
    and "ContentSecurityPolicy config = Map.empty"
    and "ContentSecurityPolicyReportOnly config = Map.empty"
    and "StrictTransportSecurity config = []"
    and "XContentTypeOptions config = []"
  shows "set_headers config rootDomain ks ks' r h = h \<and>
         WithConfig config rootDomain ks ks' next r w = next r w"
proof -
  have "set_headers config rootDomain ks ks' r h = h" for h
    using assms by (simp add: set_headers_def)
  then show ?thesis by (simp add: WithConfig_def)
qed

theorem empty_config_no_headers_witness:
  "XFrameOptions empty_config = [] \<and> ContentSecurityPolicy empty_config = Map.empty \<and>
   ContentSecurityPolicyReportOnly empty_config = Map.empty \<and>
   StrictTransportSecurity empty_config = [] \<and> XContentTypeOptions empty_config = [] \<and>
   set_headers empty_config ''example.com'' [] []
     \<lparr>Host = ''app.example.com'', Header = Map.empty\<rparr> Map.empty = Map.empty \<and>
   WithConfig empty_config ''example.com'' [] [] ok_handler
     \<lparr>Host = ''app.example.com'', Header = Map.empty\<rparr> world0 =
   (Returned, \<lparr> wheader = Map.empty, wcalls = [WriteHeader 200, Write ''ok''], sink = [] \<rparr>)"
proof -
  have e: "XFrameOptions empty_config = []" "ContentSecurityPolicy empty_config = Map.empty"
    "ContentSecurityPolicyReportOnly empty_config = Map.empty"
    "StrictTransportSecurity empty_config = []" "XContentTypeOptions empty_config = []"
    by (simp_all add: empty_config_def)
  have k: "ok_handler \<lparr>Host = ''app.example.com'', Header = Map.empty\<rparr> world0 =
    (Returned, \<lparr> wheader = Map.empty, wcalls = [WriteHeader 200, Write ''ok''], sink = [] \<rparr>)"
    by (simp add: ok_handler_def world0_def)
  show ?thesis
    using e k empty_config_no_headers [OF e, of "''example.com''" "[]" "[]"
      "\<lparr>Host = ''app.example.com'', Header = Map.empty\<rparr>" Map.empty ok_handler world0]
    by simp
qed

text \<open>
  Claim C8, as amended. A directive that is empty in the configuration never makes
  \<^verbatim>\<open>WithConfig\<close> write the corresponding header, where empty means the empty string for
  \<^verbatim>\<open>X-Frame-Options\<close>, \<^verbatim>\<open>Strict-Transport-Security\<close> and \<^verbatim>\<open>X-Content-Type-Options\<close>, and a
  mapping without directive keys for \<^verbatim>\<open>Content-Security-Policy\<close> and
  \<^verbatim>\<open>Content-Security-Policy-Report-Only\<close>. The entry of the header map is then what it
  was before.
\<close>

theorem empty_directive_no_header:
  "(XFrameOptions config = [] \<longrightarrow>
      set_headers config rootDomain ks ks' r h ''X-Frame-Options'' = h ''X-Frame-Options'') \<and>
   (ContentSecurityPolicy config = Map.empty \<longrightarrow>
      set_headers config rootDomain ks ks' r h ''Content-Security-Policy'' =
        h ''Content-Security-Policy'') \<and>
   (ContentSecurityPolicyReportOnly config = Map.empty \<longrightarrow>
      set_headers config rootDomain ks ks' r h ''Content-Security-Policy-Report-Only'' =
        h ''Content-Security-Policy-Report-Only'') \<and>
   (StrictTransportSecurity config = [] \<longrightarrow>
      set_headers config rootDomain ks ks' r h ''Strict-Transport-Security'' =
        h ''Strict-Transport-Security'') \<and>
   (XContentTypeOptions config = [] \<longrightarrow>
      set_headers config rootDomain ks ks' r h ''X-Content-Type-Options'' =
        h ''X-Content-Type-Options'')"
  by (simp add: set_headers_xfo set_headers_csp set_headers_cspro set_headers_sts set_headers_xcto)

theorem empty_directive_no_header_witness:
  "XFrameOptions empty_config = [] \<and> ContentSecurityPolicy empty_config = Map.empty \<and>
   ContentSecurityPolicyReportOnly empty_config = Map.empty \<and>
   StrictTransportSecurity empty_config = [] \<and> XContentTypeOptions empty_config = [] \<and>
   set_headers empty_config ''example.com'' [] []
     \<lparr>Host = ''app.example.com'', Header = Map.empty\<rparr>
     [''X-Frame-Options'' \<mapsto> [''DENY'']] ''X-Frame-Options'' = Some [''DENY''] \<and>
   set_headers empty_config ''example.com'' [] []
     \<lparr>Host = ''app.example.com'', Header = Map.empty\<rparr>
     [''X-Frame-Options'' \<mapsto> [''DENY'']] ''Content-Security-Policy'' = None"
proof -
  have e: "XFrameOptions empty_config = []" "ContentSecurityPolicy empty_config = Map.empty"
    "ContentSecurityPolicyReportOnly empty_config = Map.empty"
    "StrictTransportSecurity empty_config = []" "XContentTypeOptions empty_config = []"
    by (simp_all add: empty_config_def)
  note t = empty_directive_no_header [of empty_config "''example.com''" "[]" "[]"
     "\<lparr>Host = ''app.example.com'', Header = Map.empty\<rparr>" "[''X-Frame-Options'' \<mapsto> [''DENY'']]"]
  have 1: "set_headers empty_config ''example.com'' [] []
     \<lparr>Host = ''app.example.com'', Header = Map.empty\<rparr>
     [''X-Frame-Options'' \<mapsto> [''DENY'']] ''X-Frame-Options'' = Some [''DENY'']"
    using t [THEN conjunct1] e(1) by simp
  have 2: "set_headers empty_config ''example.com'' [] []
     \<lparr>Host = ''app.example.com'', Header = Map.empty\<rparr>
     [''X-Frame-Options'' \<mapsto> [''DENY'']] ''Content-Security-Policy'' = None"
    using t [THEN conjunct2, THEN conjunct1] e(2) by simp
  show ?thesis using e 1 2 by (intro conjI)
qed

text \<open>
  A mapping whose only directive has an empty list of source tokens is not empty in that
  sense: the loop emits the group \<^verbatim>\<open>default-src ;\<close> for it, the policy string is
  non-empty, and the header is written.
\<close>

theorem empty_token_list_counterexample:
  "ContentSecurityPolicy (empty_config\<lparr>ContentSecurityPolicy := [''default-src'' \<mapsto> []]\<rparr>)
       ''default-src'' = Some [] \<and>
   range_order [''default-src'' \<mapsto> ([]::string list)] [''default-src''] \<and>
   set_headers (empty_config\<lparr>ContentSecurityPolicy := [''default-src'' \<mapsto> []]\<rparr>)
       ''example.com'' [''default-src''] []
       \<lparr>Host = ''app.example.com'', Header = Map.empty\<rparr> Map.empty
       ''Content-Security-Policy'' = Some [''default-src ;'']"
  by (simp add: set_headers_csp range_order_def directive_def empty_config_def)

subsection \<open>Serialising the policy mappings\<close>

text \<open>
  Claim C6. The policy string is the concatenation, with nothing in between, of one
  group \<^verbatim>\<open><key> <space-joined values>;\<close> for each directive key, in the order in which
  the loop visits the keys. Hence the group of every directive is a substring of the
  policy string. For the mapping \<open>csp_example\<close> the header value contains both
  \<^verbatim>\<open>default-src 'self';\<close> and \<^verbatim>\<open>img-src * data:;\<close>, whatever the order. The value written
  under \<^verbatim>\<open>Content-Security-Policy-Report-Only\<close> is built by the same loop from the
  report-only mapping.
\<close>

theorem policy_serialization:
  assumes "range_order m ks"
  shows "policy_loop m ks [] = concat (policy_groups m ks) \<and>
    list_all2 (\<lambda>k g. \<exists>v. m k = Some v \<and> g = k @ '' '' @ Join v '' '' @ '';'')
      ks (policy_groups m ks) \<and>
    (\<forall>k v. m k = Some v \<longrightarrow>
       sublist (k @ '' '' @ Join v '' '' @ '';'') (policy_loop m ks [])) \<and>
    (\<forall>ks0 ks0' rd r h. range_order csp_example ks0 \<longrightarrow>
       (\<exists>v. set_headers csp_example_config rd ks0 ks0' r h ''Content-Security-Policy'' = Some [v] \<and>
            sublist ''default-src 'self';'' v \<and> sublist ''img-src * data:;'' v)) \<and>
    (\<forall>config rd ks1 ks1' r h.
       set_headers config rd ks1 ks1' r h ''Content-Security-Policy'' =
         (if policy_loop (ContentSecurityPolicy config) ks1 [] \<noteq> []
          then Some [policy_loop (ContentSecurityPolicy config) ks1 []]
          else h ''Content-Security-Policy'') \<and>
       set_headers config rd ks1 ks1' r h ''Content-Security-Policy-Report-Only'' =
         (if policy_loop (ContentSecurityPolicyReportOnly config) ks1' [] \<noteq> []
          then Some [policy_loop (ContentSecurityPolicyReportOnly config) ks1' []]
          else h ''Content-Security-Policy-Report-Only''))"
proof -
  have 1: "policy_loop m ks [] = concat (policy_groups m ks)"
    by (simp add: policy_loop_groups)
  have "set ks \<subseteq> dom m" using assms by (simp add: range_order_def)
  then have 2: "list_all2 (\<lambda>k g. \<exists>v. m k = Some v \<and> g = k @ '' '' @ Join v '' '' @ '';'')
      ks (policy_groups m ks)"
    by (rule policy_groups_all2)
  have 3: "\<forall>k v. m k = Some v \<longrightarrow>
       sublist (k @ '' '' @ Join v '' '' @ '';'') (policy_loop m ks [])"
    using policy_loop_contains [OF assms] by (simp add: directive_def)
  have 4: "\<forall>ks0 ks0' rd r h. range_order csp_example ks0 \<longrightarrow>
       (\<exists>v. set_headers csp_example_config rd ks0 ks0' r h ''Content-Security-Policy'' = Some [v] \<and>
            sublist ''default-src 'self';'' v \<and> sublist ''img-src * data:;'' v)"
    using csp_example_header by (intro allI impI)
  have 5: "\<forall>config rd ks1 ks1' r h.
       set_headers config rd ks1 ks1' r h ''Content-Security-Policy'' =
         (if policy_loop (ContentSecurityPolicy config) ks1 [] \<noteq> []
          then Some [policy_loop (ContentSecurityPolicy config) ks1 []]
          else h ''Content-Security-Policy'') \<and>
       set_headers config rd ks1 ks1' r h ''Content-Security-Policy-Report-Only'' =
         (if policy_loop (ContentSecurityPolicyReportOnly config) ks1' [] \<noteq> []
          then Some [policy_loop (ContentSecurityPolicyReportOnly config) ks1' []]
          else h ''Content-Security-Policy-Report-Only'')"
    by (intro allI conjI) (rule set_headers_csp, rule set_headers_cspro)
  show ?thesis
    by (intro conjI) (rule 1, rule 2, rule 3, rule 4, rule 5)
qed

theorem policy_serialization_witness:
  "range_order csp_example [''img-src'', ''default-src''] \<and>
   policy_loop csp_example [''img-src'', ''default-src''] [] =
     ''img-src * data:;default-src 'self';'' \<and>
   policy_groups csp_example [''img-src'', ''default-src''] =
     [''img-src * data:;'', ''default-src 'self';'']"
proof -
  have o: "range_order csp_example [''img-src'', ''default-src'']"
    by (rule csp_example_orders)
  have g: "policy_groups csp_example [''img-src'', ''default-src''] =
     [''img-src * data:;'', ''default-src 'self';'']"
    by (simp add: csp_example_def directive_def quoted_self_def)
  have "policy_loop csp_example [''img-src'', ''default-src''] [] =
      concat (policy_groups csp_example [''img-src'', ''default-src''])"
    using policy_serialization [OF o] by (rule conjunct1)
  then show ?thesis using o g by simp
qed

subsection \<open>Determinism\<close>

text \<open>
  Claim C7, as amended. Fix the configuration and \<open>rootDomain\<close>, and take two runs on
  requests with the same host. Every header other than the two policy headers gets the
  same value in both runs. Each policy header is written in both runs or in neither,
  and its two values are concatenations of the same directive groups, in orders that
  may differ. When each of the two policy mappings has at most one directive, the two
  runs write the same header map.
\<close>

theorem headers_deterministic_up_to_order:
  assumes "range_order (ContentSecurityPolicy config) ks1"
    and "range_order (ContentSecurityPolicy config) ks2"
    and "range_order (ContentSecurityPolicyReportOnly config) ks1'"
    and "range_order (ContentSecurityPolicyReportOnly config) ks2'"
    and "Host r1 = Host r2"
  shows
   "(\<forall>n. n \<noteq> ''Content-Security-Policy'' \<and> n \<noteq> ''Content-Security-Policy-Report-Only'' \<longrightarrow>
       set_headers config rootDomain ks1 ks1' r1 h n =
       set_headers config rootDomain ks2 ks2' r2 h n) \<and>
    set_headers config rootDomain ks1 ks1' r1 h ''Content-Security-Policy'' =
      (if ContentSecurityPolicy config = Map.empty then h ''Content-Security-Policy''
       else Some [concat (policy_groups (ContentSecurityPolicy config) ks1)]) \<and>
    set_headers config rootDomain ks2 ks2' r2 h ''Content-Security-Policy'' =
      (if ContentSecurityPolicy config = Map.empty then h ''Content-Security-Policy''
       else Some [concat (policy_groups (ContentSecurityPolicy config) ks2)]) \<and>
    mset (policy_groups (ContentSecurityPolicy config) ks1) =
      mset (policy_groups (ContentSecurityPolicy config) ks2) \<and>
    set_headers config rootDomain ks1 ks1' r1 h ''Content-Security-Policy-Report-Only'' =
      (if ContentSecurityPolicyReportOnly config = Map.empty
       then h ''Content-Security-Policy-Report-Only''
       else Some [concat (policy_groups (ContentSecurityPolicyReportOnly config) ks1')]) \<and>
    set_headers config rootDomain ks2 ks2' r2 h ''Content-Security-Policy-Report-Only'' =
      (if ContentSecurityPolicyReportOnly config = Map.empty
       then h ''Content-Security-Policy-Report-Only''
       else Some [concat (policy_groups (ContentSecurityPolicyReportOnly config) ks2')]) \<and>
    mset (policy_groups (ContentSecurityPolicyReportOnly config) ks1') =
      mset (policy_groups (ContentSecurityPolicyReportOnly config) ks2') \<and>
    (card (dom (ContentSecurityPolicy config)) \<le> 1 \<and>
     card (dom (ContentSecurityPolicyReportOnly config)) \<le> 1 \<longrightarrow>
       set_headers config rootDomain ks1 ks1' r1 h = set_headers config rootDomain ks2 ks2' r2 h)"
proof -
  have fixed: "\<forall>n. n \<noteq> ''Content-Security-Policy'' \<and>
      n \<noteq> ''Content-Security-Policy-Report-Only'' \<longrightarrow>
       set_headers config rootDomain ks1 ks1' r1 h n =
       set_headers config rootDomain ks2 ks2' r2 h n"
    using assms(5) by (simp add: set_headers_fixed)
  have single: "set_headers config rootDomain ks1 ks1' r1 h =
      set_headers config rootDomain ks2 ks2' r2 h"
    if c: "card (dom (ContentSecurityPolicy config)) \<le> 1"
      "card (dom (ContentSecurityPolicyReportOnly config)) \<le> 1"
  proof -
    have "ks1 = ks2" using assms(1,2) c(1) by (rule range_order_single)
    moreover have "ks1' = ks2'" using assms(3,4) c(2) by (rule range_order_single)
    ultimately show ?thesis
      using set_headers_host [OF assms(5), of config rootDomain ks2 ks2' h] by simp
  qed
  have sngl: "card (dom (ContentSecurityPolicy config)) \<le> 1 \<and>
     card (dom (ContentSecurityPolicyReportOnly config)) \<le> 1 \<longrightarrow>
       set_headers config rootDomain ks1 ks1' r1 h = set_headers config rootDomain ks2 ks2' r2 h"
    using single by blast
  note parts = fixed
      set_headers_csp_groups [OF assms(1), of rootDomain ks1' r1 h]
      set_headers_csp_groups [OF assms(2), of rootDomain ks2' r2 h]
      policy_groups_mset [OF assms(1,2)]
      set_headers_cspro_groups [OF assms(3), of rootDomain ks1 r1 h]
      set_headers_cspro_groups [OF assms(4), of rootDomain ks2 r2 h]
      policy_groups_mset [OF assms(3,4)] sngl
  show ?thesis
    by (intro conjI) (rule parts)+
qed

theorem headers_deterministic_up_to_order_witness:
  "range_order (ContentSecurityPolicy csp_example_config) [''default-src'', ''img-src''] \<and>
   range_order (ContentSecurityPolicy csp_example_config) [''img-src'', ''default-src''] \<and>
   range_order (ContentSecurityPolicyReportOnly csp_example_config) [] \<and>
   mset (policy_groups (ContentSecurityPolicy csp_example_config) [''default-src'', ''img-src'']) =
   mset (policy_groups (ContentSecurityPolicy csp_example_config) [''img-src'', ''default-src''])"
proof -
  have m: "ContentSecurityPolicy csp_example_config = csp_example"
    "ContentSecurityPolicyReportOnly csp_example_config = Map.empty"
    by (simp_all add: csp_example_config_def DefaultConfig_def)
  have a: "range_order (ContentSecurityPolicy csp_example_config) [''default-src'', ''img-src'']"
    and b: "range_order (ContentSecurityPolicy csp_example_config) [''img-src'', ''default-src'']"
    by (simp_all only: m csp_example_orders)
  have c: "range_order (ContentSecurityPolicyReportOnly csp_example_config) []"
    by (simp add: m range_order_def)
  have e: "Host \<lparr>Host = ''app.example.com'', Header = Map.empty\<rparr> =
     Host \<lparr>Host = ''app.example.com'', Header = Map.empty\<rparr>" by (rule refl)
  note t = headers_deterministic_up_to_order [OF a b c c e, of "''example.com''" Map.empty]
  have "mset (policy_groups (ContentSecurityPolicy csp_example_config) [''default-src'', ''img-src'']) =
   mset (policy_groups (ContentSecurityPolicy csp_example_config) [''img-src'', ''default-src''])"
    by (rule t [THEN conjunct2, THEN conjunct2, THEN conjunct2, THEN conjunct1])
  then show ?thesis using a b c by (intro conjI)
qed

text \<open>
  With two directives the two orders of the loop give two different header values, for
  the same configuration and the same request.
\<close>

theorem csp_order_counterexample:
  "range_order (ContentSecurityPolicy csp_example_config) [''default-src'', ''img-src''] \<and>
   range_order (ContentSecurityPolicy csp_example_config) [''img-src'', ''default-src''] \<and>
   set_headers csp_example_config ''example.com'' [''default-src'', ''img-src''] []
       \<lparr>Host = ''app.example.com'', Header = Map.empty\<rparr> Map.empty
       ''Content-Security-Policy'' = Some [''default-src 'self';img-src * data:;''] \<and>
   set_headers csp_example_config ''example.com'' [''img-src'', ''default-src''] []
       \<lparr>Host = ''app.example.com'', Header = Map.empty\<rparr> Map.empty
       ''Content-Security-Policy'' = Some [''img-src * data:;default-src 'self';''] \<and>
   set_headers csp_example_config ''example.com'' [''default-src'', ''img-src''] []
       \<lparr>Host = ''app.example.com'', Header = Map.empty\<rparr> Map.empty
       ''Content-Security-Policy'' \<noteq>
   set_headers csp_example_config ''example.com'' [''img-src'', ''default-src''] []
       \<lparr>Host = ''app.example.com'', Header = Map.empty\<rparr> Map.empty
       ''Content-Security-Policy''"
proof -
  have "dom csp_example = {''default-src'', ''img-src''}"
    by (auto simp: csp_example_def)
  then show ?thesis
    by (simp add: set_headers_csp range_order_def directive_def csp_example_config_def
        csp_example_def quoted_self_def insert_commute)
qed

section \<open>Properties of rescueMiddleware\<close>

subsection \<open>The recovered error\<close>

text \<open>
  An error is kept, an error under the key \<^verbatim>\<open>error\<close> of a map is taken out, any other
  value is formatted. Only a map without an error under that key leaves the \<^verbatim>\<open>nil\<close>
  error.
\<close>

lemma recovered_err_cases:
  "recovered_err (FError e) = Some e"
  "m ''error'' = Some (IError e) \<Longrightarrow> recovered_err (FMap m) = Some e"
  "recovered_err (FOther v) = Some (GoError v)"
  by simp_all

lemma recovered_err_None_iff:
  "recovered_err rec = None \<longleftrightarrow>
     (\<exists>m. rec = FMap m \<and> (\<forall>e. m ''error'' \<noteq> Some (IError e)))"
  by (cases rec) (auto split: option.splits iface.splits)

lemma isXHR_examples [simp]: "isXHR xhr_request" "\<not> isXHR plain_request"
  by (simp_all add: isXHR_def xhr_request_def plain_request_def Header_Get_def)

subsection \<open>What the deferred function does\<close>

text \<open>
  After a panic the sink receives one call of \<^verbatim>\<open>Err\<close>. When the recovered error is not
  \<^verbatim>\<open>nil\<close>, the writer receives \<^verbatim>\<open>WriteHeader(500)\<close> and then one \<^verbatim>\<open>Write\<close>, with the body
  chosen by \<open>dev\<close> and the \<^verbatim>\<open>X-Requested-With\<close> header; \<^verbatim>\<open>Content-Type\<close> is added for the
  JSON body only. The panic is absorbed unless the recovered error is \<^verbatim>\<open>nil\<close>, \<open>dev\<close> is
  set and the request is an XHR request.
\<close>

lemma Rescue_absorbs:
  assumes "next r w = (Panicked rec, w')"
    and "recovered_err rec \<noteq> None \<or> \<not> dev \<or> \<not> isXHR r"
  shows "fst (Rescue extraFields dev stack next r w) = Returned"
  using assms by (auto simp: Rescue_def rescue_deferred_def Let_def)

lemma Rescue_logs_once:
  assumes "next r w = (Panicked rec, w')"
  shows "sink (snd (Rescue extraFields dev stack next r w)) =
     sink w' @ [(case extraFields of None \<Rightarrow> log_Module ''panic handler''
                  | Some f \<Rightarrow> f r (log_Module ''panic handler''), recovered_err rec)]"
  using assms
  by (simp add: Rescue_def rescue_deferred_def Let_def log_Err_def
      w_WriteHeader_def w_Write_def w_Header_Add_def split: option.splits)

lemma Rescue_response:
  assumes "next r w = (Panicked rec, w')" and "recovered_err rec = Some e"
  shows "wcalls (snd (Rescue extraFields dev stack next r w)) =
      wcalls w' @ [WriteHeader 500, Write
        (if dev then (if isXHR r then Error e
                      else ''<h2>'' @ Error e @ ''</h2><pre>'' @ stack @ ''</pre>'')
         else if isXHR r then apology_json else apology)]"
    and "wheader (snd (Rescue extraFields dev stack next r w)) =
      (if \<not> dev \<and> isXHR r then Header_Add ''Content-Type'' ''application/json'' (wheader w')
       else wheader w')"
  using assms
  by (simp_all add: Rescue_def rescue_deferred_def Let_def log_Err_def
      w_WriteHeader_def w_Write_def w_Header_Add_def StatusInternalServerError_def)

lemma Rescue_response_nil_err:
  assumes "next r w = (Panicked rec, w')" and "recovered_err rec = None"
  shows "wcalls (snd (Rescue extraFields dev stack next r w)) =
      wcalls w' @ (if dev then (if isXHR r then [WriteHeader 500]
                      else [WriteHeader 500, Write (''<h2><nil></h2><pre>'' @ stack @ ''</pre>'')])
         else if isXHR r then [WriteHeader 500, Write apology_json]
         else [WriteHeader 500, Write apology])"
  using assms
  by (simp_all add: Rescue_def rescue_deferred_def Let_def log_Err_def
      w_WriteHeader_def w_Write_def w_Header_Add_def StatusInternalServerError_def)

text \<open>The handler that panics with \<^verbatim>\<open>"boom"\<close>, under the four rows of the table.\<close>

lemma Rescue_boom_examples:
  "Rescue None False stack0 boom_handler plain_request world0 =
     (Returned, \<lparr> wheader = Map.empty,
        wcalls = [WriteHeader 500,
                  Write ''Sorry, the server ran into a problem processing this request.''],
        sink = [(log_Module ''panic handler'', Some (GoError ''boom''))] \<rparr>)"
  \<open>Rescue None False stack0 boom_handler xhr_request world0 =
     (Returned, \<lparr> wheader = [''Content-Type'' \<mapsto> [''application/json'']],
        wcalls = [WriteHeader 500,
          Write ''{"message":"Sorry, the server ran into a problem processing this request."}''],
        sink = [(log_Module ''panic handler'', Some (GoError ''boom''))] \<rparr>)\<close>
  "Rescue None True stack0 boom_handler plain_request world0 =
     (Returned, \<lparr> wheader = Map.empty,
        wcalls = [WriteHeader 500, Write ''<h2>boom</h2><pre>goroutine 1 [running]:</pre>''],
        sink = [(log_Module ''panic handler'', Some (GoError ''boom''))] \<rparr>)"
  "Rescue None True stack0 boom_handler xhr_request world0 =
     (Returned, \<lparr> wheader = Map.empty,
        wcalls = [WriteHeader 500, Write ''boom''],
        sink = [(log_Module ''panic handler'', Some (GoError ''boom''))] \<rparr>)"
  by (simp_all add: Rescue_def rescue_deferred_def boom_handler_def world0_def Let_def
      log_Err_def w_WriteHeader_def w_Write_def w_Header_Add_def Header_Add_def
      StatusInternalServerError_def apology_def apology_json_def stack0_def)

text \<open>
  The handler that panics with a map that has no \<^verbatim>\<open>error\<close> key, with \<open>dev\<close> set, on an
  XHR request: the sink is handed the \<^verbatim>\<open>nil\<close> error, the writer receives
  \<^verbatim>\<open>WriteHeader(500)\<close>, and \<^verbatim>\<open>err.Error()\<close> panics before any body is written.
\<close>

lemma Rescue_map_fault_dev_xhr:
  "Rescue None True stack0 map_panic_handler xhr_request world0 =
     (Panicked nil_dereference,
      \<lparr> wheader = Map.empty, wcalls = [WriteHeader 500],
        sink = [(log_Module ''panic handler'', None)] \<rparr>)"
  by (simp add: Rescue_def rescue_deferred_def map_panic_handler_def world0_def Let_def
      log_Err_def w_WriteHeader_def StatusInternalServerError_def)

subsection \<open>The success path and the nil error\<close>

text \<open>
  Claim C5. When the next handler returns without panicking, \<^verbatim>\<open>Rescue\<close> changes nothing:
  the response and the sink are exactly as the handler left them (no status call, no
  body, no log record added).
\<close>

theorem Rescue_noop_on_return:
  "fst (next r w) = Returned \<Longrightarrow> Rescue extraFields dev stack next r w = next r w"
  by (cases "next r w") (simp add: Rescue_def)

theorem Rescue_noop_on_return_witness:
  "fst (ok_handler plain_request world0) = Returned \<and>
   Rescue None False stack0 ok_handler plain_request world0 =
     (Returned, \<lparr> wheader = Map.empty, wcalls = [WriteHeader 200, Write ''ok''], sink = [] \<rparr>)"
proof -
  have k: "ok_handler plain_request world0 =
     (Returned, \<lparr> wheader = Map.empty, wcalls = [WriteHeader 200, Write ''ok''], sink = [] \<rparr>)"
    by (simp add: ok_handler_def world0_def)
  then have f: "fst (ok_handler plain_request world0) = Returned" by simp
  show ?thesis
    using f k Rescue_noop_on_return [of ok_handler plain_request world0 None False stack0]
    by simp
qed

text \<open>
  Claim C1 says that every panic of the next handler is absorbed. With \<open>dev\<close> set, on an
  XHR request, the handler that panics with the map \<^verbatim>\<open>{"code": 42}\<close> makes \<^verbatim>\<open>Rescue\<close>
  itself panic, with the runtime error of the \<^verbatim>\<open>nil\<close> dereference.
\<close>

theorem Rescue_panics_on_map_fault:
  "fst (Rescue None True stack0 map_panic_handler xhr_request world0) =
     Panicked (FError
       (GoError ''runtime error: invalid memory address or nil pointer dereference''))"
  by (simp add: Rescue_map_fault_dev_xhr nil_dereference_def)

text \<open>
  Claim C2 says that one body is written on every recovery. At the same input the writer
  receives \<^verbatim>\<open>WriteHeader(500)\<close> and no \<^verbatim>\<open>Write\<close>.
\<close>

theorem Rescue_no_body_on_map_fault:
  "wcalls (snd (Rescue None True stack0 map_panic_handler xhr_request world0)) =
     [WriteHeader 500]"
  by (simp add: Rescue_map_fault_dev_xhr)

text \<open>
  Claim C4 says that the error handed to the sink is never \<^verbatim>\<open>nil\<close>. For the map
  \<^verbatim>\<open>{"code": 42}\<close> the recovered error is \<^verbatim>\<open>nil\<close>, and that is what the sink receives, with
  \<open>dev\<close> set or not.
\<close>

theorem recovered_err_nil_on_map_fault:
  "recovered_err (FMap [''code'' \<mapsto> IOther ''42'']) = None \<and>
   sink (snd (Rescue None True stack0 map_panic_handler xhr_request world0)) =
     [(log_Module ''panic handler'', None)] \<and>
   sink (snd (Rescue None False stack0 map_panic_handler plain_request world0)) =
     [(log_Module ''panic handler'', None)]"
  by (simp add: Rescue_def rescue_deferred_def map_panic_handler_def world0_def Let_def
      log_Err_def w_WriteHeader_def w_Write_def StatusInternalServerError_def)

end
